theory Spec2Isabelle
  imports Main
begin

section \<open>Strings\<close>

text \<open>
  JavaScript strings are modelled as \<open>string\<close> (character lists). The program only
  splits, joins, slices and compares strings, so every operation below is defined
  element-wise; on ASCII text it coincides with the JavaScript operation of the same name.
\<close>

text \<open>\<open>String.prototype.split\<close> with a one-character separator: never returns the
  empty list, \<open>"".split(c)\<close> is \<open>[""]\<close>.\<close>

fun js_split :: "char \<Rightarrow> string \<Rightarrow> string list" where
  "js_split sep [] = [[]]"
| "js_split sep (c # cs) =
     (if c = sep then [] # js_split sep cs
      else (case js_split sep cs of [] \<Rightarrow> [[c]] | x # xs \<Rightarrow> (c # x) # xs))"

text \<open>\<open>Array.prototype.join\<close> on an array of strings.\<close>

fun js_join :: "string \<Rightarrow> string list \<Rightarrow> string" where
  "js_join sep [] = []"
| "js_join sep [x] = x"
| "js_join sep (x # y # ys) = x @ sep @ js_join sep (y # ys)"

definition startsWith :: "string \<Rightarrow> string \<Rightarrow> bool" where
  "startsWith s t = (take (length t) s = t)"

definition endsWith :: "string \<Rightarrow> string \<Rightarrow> bool" where
  "endsWith s t = (length t \<le> length s \<and> drop (length s - length t) s = t)"

text \<open>lodash \<open>trim(string, chars)\<close> and \<open>trimStart(string, chars)\<close> with an explicit
  \<open>chars\<close> argument: only the listed characters are removed.\<close>

definition trimStart :: "string \<Rightarrow> string \<Rightarrow> string" where
  "trimStart s chars = dropWhile (\<lambda>c. c \<in> set chars) s"

definition trim :: "string \<Rightarrow> string \<Rightarrow> string" where
  "trim s chars = rev (dropWhile (\<lambda>c. c \<in> set chars) (rev (dropWhile (\<lambda>c. c \<in> set chars) s)))"

text \<open>lodash \<open>first\<close>: \<open>undefined\<close> (here \<open>None\<close>) on the empty array.\<close>

definition first :: "'a list \<Rightarrow> 'a option" where
  "first xs = (case xs of [] \<Rightarrow> None | x # _ \<Rightarrow> Some x)"

text \<open>lodash \<open>slice(array, 1)\<close>.\<close>

definition slice1 :: "'a list \<Rightarrow> 'a list" where
  "slice1 xs = drop 1 xs"

definition is_digit :: "char \<Rightarrow> bool" where
  "is_digit c = (c \<in> set ''0123456789'')"

section \<open>Values\<close>

text \<open>
  The run-time values the two entry points handle. The program never computes with
  numbers (it only prints, parses and compares them), so the numeric carrier is the type
  parameter \<open>'n\<close>. A \<open>Date\<close> is represented by its \<open>toISOString()\<close> rendering, \<open>None\<close>
  for an invalid date, on which \<open>toISOString\<close> raises \<open>RangeError\<close>. Plain objects are
  association lists in enumeration order; an absent array slot reads as \<open>Undefined\<close> and
  is represented by it.
\<close>

datatype 'n jsval =
    Undefined
  | Null
  | Bool bool
  | Num 'n
  | Str string
  | Date "string option"
  | Obj "(string \<times> 'n jsval) list"
  | Arr "'n jsval list"
  | MapV "('n jsval \<times> 'n jsval) list"
  | SetV "'n jsval list"

datatype error = RangeError | TypeError | SyntaxError | URIError

text \<open>
  The outcome of a call: it returns, it raises, or it leaves the fragment of JavaScript
  object semantics modelled here (\<open>Unmodelled\<close>: a property inherited from a prototype is
  read, a named property is added to an array, \<open>Map\<close> or \<open>Set\<close>, or an array length is
  assigned a value whose numeric coercion is not modelled).
\<close>

datatype 'a outcome = Returns 'a | Throws error | Unmodelled

fun bind :: "'a outcome \<Rightarrow> ('a \<Rightarrow> 'b outcome) \<Rightarrow> 'b outcome" where
  "bind (Returns x) f = f x"
| "bind (Throws e) f = Throws e"
| "bind Unmodelled f = Unmodelled"

section \<open>Platform functions and options\<close>

text \<open>
  The built-ins of the JavaScript platform and the lodash case converters are parameters
  of the model. \<open>None\<close> stands for the exception the built-in raises (\<open>SyntaxError\<close> for
  \<open>JSON.parse\<close>, \<open>URIError\<close> for \<open>decodeURIComponent\<close>). \<open>validLength\<close> reads a number as
  a length, as lodash \<open>isLength\<close> accepts it: an integer from \<open>0\<close> to \<open>2^53 - 1\<close>.
\<close>

record 'n platform =
  json_parse :: "string \<Rightarrow> 'n jsval option"
  json_stringify :: "'n jsval \<Rightarrow> string"
  decodeURIComponent :: "string \<Rightarrow> string option"
  encodeURIComponent :: "string \<Rightarrow> string"
  number_toString :: "'n \<Rightarrow> string"
  validLength :: "'n \<Rightarrow> nat option"
  camelCase :: "string \<Rightarrow> string"
  snakeCase :: "string \<Rightarrow> string"
  kebabCase :: "string \<Rightarrow> string"

datatype QsCase = CamelCase | SnakeCase | KebabCase

text \<open>\<open>restoreCase?: QsCase | false\<close>.\<close>

datatype RestoreCase = RestoreTo QsCase | RestoreOff

text \<open>
  The key handed to the callback of lodash \<open>reduce\<close>: a string for an object, the numeric
  index for an array. The distinction survives only while no prefix has been prepended:
  a template literal turns either into text.
\<close>

datatype pkey = SKey string | NKey nat

text \<open>\<open>omitValues?: any[] | ((value, key) => boolean)\<close>. The predicate is declared on
  string keys and is handed whatever key path the traversal holds, a number included.\<close>

datatype 'n omit = OmitList "'n jsval list" | OmitFn "'n jsval \<Rightarrow> pkey \<Rightarrow> bool"

text \<open>\<open>QsOptions\<close>; an unset field is \<open>None\<close>. The field \<open>case\<close> is named \<open>qcase\<close>.\<close>

record 'n QsOptions =
  addQueryPrefix :: "bool option"
  qcase :: "QsCase option"
  omitValues :: "'n omit option"
  prefix :: "string option"
  restoreCase :: "RestoreCase option"

text \<open>\<open>options?.prefix\<close> as a condition: set and not the empty string.\<close>

definition prefix_truthy :: "'n QsOptions \<Rightarrow> string option" where
  "prefix_truthy opts = (case prefix opts of Some p \<Rightarrow> (if p = [] then None else Some p) | None \<Rightarrow> None)"

section \<open>Key transform\<close>

definition caseFn :: "'n platform \<Rightarrow> QsCase \<Rightarrow> string \<Rightarrow> string" where
  "caseFn P c = (case c of SnakeCase \<Rightarrow> snakeCase P | CamelCase \<Rightarrow> camelCase P | KebabCase \<Rightarrow> kebabCase P)"

text \<open>The callback mapped over the \<open>.\<close>-separated parts, the same text in \<open>transformKey\<close>
  and \<open>reverseTransformKey\<close>.\<close>

definition transformPart :: "(string \<Rightarrow> string) \<Rightarrow> string \<Rightarrow> string" where
  "transformPart f part =
     (let splitParts = js_split CHR ''['' part;
          basePart = first splitParts;
          arrayParts = slice1 splitParts
      in case basePart of
           None \<Rightarrow> []
         | Some b \<Rightarrow>
             if b \<noteq> [] then
               (let casePart = f b
                in if length arrayParts > 0 then casePart @ ''['' @ js_join ''['' arrayParts
                   else casePart)
             else [])"

definition transformKey :: "'n platform \<Rightarrow> string \<Rightarrow> 'n QsOptions \<Rightarrow> string" where
  "transformKey P key opts =
     (case qcase opts of
        None \<Rightarrow> key
      | Some c \<Rightarrow> js_join ''.'' (map (transformPart (caseFn P c)) (js_split CHR ''.'' key)))"

text \<open>\<open>options?.restoreCase ?? (options?.case ? 'camelCase' : false)\<close>.\<close>

definition restoreCaseOf :: "'n QsOptions \<Rightarrow> RestoreCase" where
  "restoreCaseOf opts =
     (case restoreCase opts of
        Some r \<Rightarrow> r
      | None \<Rightarrow> (if qcase opts \<noteq> None then RestoreTo CamelCase else RestoreOff))"

definition reverseTransformKey :: "'n platform \<Rightarrow> string \<Rightarrow> 'n QsOptions \<Rightarrow> string" where
  "reverseTransformKey P key opts =
     (case restoreCaseOf opts of
        RestoreOff \<Rightarrow> key
      | RestoreTo c \<Rightarrow> js_join ''.'' (map (transformPart (caseFn P c)) (js_split CHR ''.'' key)))"

definition addPrefix :: "string \<Rightarrow> 'n QsOptions \<Rightarrow> string" where
  "addPrefix key opts = (case prefix_truthy opts of None \<Rightarrow> key | Some p \<Rightarrow> p @ key)"

definition removePrefix :: "string \<Rightarrow> 'n QsOptions \<Rightarrow> string" where
  "removePrefix key opts =
     (case prefix_truthy opts of
        None \<Rightarrow> key
      | Some p \<Rightarrow> (if startsWith key p then drop (length p) key else key))"

section \<open>Parse: key path decoding\<close>

text \<open>
  The regular expression \<open>/\[(\d+)\]/g\<close>. \<open>index_group cs\<close> matches the rest of a group
  after its opening bracket: a non-empty maximal run of digits followed by \<open>]\<close>; it
  returns the digits and the text after the closing bracket. (A shorter run of digits is
  followed by a digit, so backtracking never finds another match.)
\<close>

definition index_group :: "string \<Rightarrow> (string \<times> string) option" where
  "index_group cs =
     (let ds = takeWhile is_digit cs
      in case dropWhile is_digit cs of
           [] \<Rightarrow> None
         | c # rest \<Rightarrow> (if ds \<noteq> [] \<and> c = CHR '']'' then Some (ds, rest) else None))"

text \<open>\<open>segment.match(/\[(\d+)\]/g)\<close> is not \<open>null\<close>.\<close>

fun has_index_group :: "string \<Rightarrow> bool" where
  "has_index_group [] = False"
| "has_index_group (c # cs) = ((c = CHR ''['' \<and> index_group cs \<noteq> None) \<or> has_index_group cs)"

lemma index_group_shorter: "index_group cs = Some (ds, rest) \<Longrightarrow> length rest < length cs"
proof -
  assume a: "index_group cs = Some (ds, rest)"
  have "length (dropWhile is_digit cs) \<le> length cs"
    by (rule length_dropWhile_le)
  moreover from a obtain c where "dropWhile is_digit cs = c # rest"
    by (auto simp: index_group_def Let_def split: list.splits if_splits)
  ultimately show ?thesis by simp
qed

text \<open>\<open>segment.replace(/\[(\d+)\]/g, '.$1')\<close>: matches are replaced left to right, the
  scan resuming after each match.\<close>

function replace_index_groups :: "string \<Rightarrow> string" where
  "replace_index_groups [] = []"
| "replace_index_groups (c # cs) =
     (if c = CHR ''['' then
        (case index_group cs of
           Some (ds, rest) \<Rightarrow> CHR ''.'' # ds @ replace_index_groups rest
         | None \<Rightarrow> c # replace_index_groups cs)
      else c # replace_index_groups cs)"
  by pat_completeness auto
termination
  by (relation "measure length") (auto dest: index_group_shorter)

text \<open>The callback of \<open>map(transformedKey.split('.'), ...)\<close>.\<close>

definition segmentPath :: "string \<Rightarrow> string list" where
  "segmentPath segment =
     (if has_index_group segment then js_split CHR ''.'' (replace_index_groups segment)
      else [segment])"

text \<open>\<open>flattenDeep(path)\<close> of the mapped segments.\<close>

definition flatPath :: "string \<Rightarrow> string list" where
  "flatPath transformedKey = concat (map segmentPath (js_split CHR ''.'' transformedKey))"

section \<open>Parse: value decoding\<close>

definition isEncoded :: "'n platform \<Rightarrow> string \<Rightarrow> bool" where
  "isEncoded P v = (case decodeURIComponent P v of None \<Rightarrow> False | Some d \<Rightarrow> d \<noteq> v)"

text \<open>\<open>isEncoded(rawValue) ? decodeURIComponent(rawValue) : rawValue\<close>; the second call of
  \<open>decodeURIComponent\<close> is outside any \<open>try\<close>.\<close>

definition decodeRaw :: "'n platform \<Rightarrow> string \<Rightarrow> string outcome" where
  "decodeRaw P rawValue =
     (if isEncoded P rawValue then
        (case decodeURIComponent P rawValue of Some d \<Rightarrow> Returns d | None \<Rightarrow> Throws URIError)
      else Returns rawValue)"

definition is_primitive :: "'n jsval \<Rightarrow> bool" where
  "is_primitive v = (case v of Undefined \<Rightarrow> True | Null \<Rightarrow> True | Bool _ \<Rightarrow> True | Num _ \<Rightarrow> True
                      | Str _ \<Rightarrow> True | _ \<Rightarrow> False)"

text \<open>lodash \<open>isObject\<close>.\<close>

definition isObject :: "'n jsval \<Rightarrow> bool" where
  "isObject v = (\<not> is_primitive v)"

text \<open>
  \<open>Map.prototype.set\<close> and \<open>Set.prototype.add\<close>. Keys are compared by SameValueZero:
  primitives by value (equality of the numeric carrier standing for it), objects by
  identity; the objects met here are fresh from \<open>JSON.parse\<close>, so never identical.
\<close>

fun map_set :: "('n jsval \<times> 'n jsval) list \<Rightarrow> 'n jsval \<Rightarrow> 'n jsval \<Rightarrow> ('n jsval \<times> 'n jsval) list" where
  "map_set [] k v = [(k, v)]"
| "map_set ((k', v') # es) k v =
     (if is_primitive k \<and> k' = k then (k', v) # es else (k', v') # map_set es k v)"

definition set_add :: "'n jsval list \<Rightarrow> 'n jsval \<Rightarrow> 'n jsval list" where
  "set_add xs x = (if is_primitive x \<and> x \<in> set xs then xs else xs @ [x])"

definition elem_or_undefined :: "'n jsval list \<Rightarrow> nat \<Rightarrow> 'n jsval" where
  "elem_or_undefined xs i = (if i < length xs then xs ! i else Undefined)"

text \<open>The \<open>[key, value]\<close> read off one item of the iterable given to \<open>new Map\<close>:
  \<open>item[0]\<close> and \<open>item[1]\<close>; an item that is not an object raises \<open>TypeError\<close>.\<close>

definition map_entry :: "'n jsval \<Rightarrow> ('n jsval \<times> 'n jsval) option" where
  "map_entry item =
     (case item of
        Arr ys \<Rightarrow> Some (elem_or_undefined ys 0, elem_or_undefined ys 1)
      | Obj kvs \<Rightarrow> Some (case_option Undefined id (map_of kvs ''0''),
                         case_option Undefined id (map_of kvs ''1''))
      | MapV _ \<Rightarrow> Some (Undefined, Undefined)
      | SetV _ \<Rightarrow> Some (Undefined, Undefined)
      | Date _ \<Rightarrow> Some (Undefined, Undefined)
      | _ \<Rightarrow> None)"

fun map_entries :: "'n jsval list \<Rightarrow> ('n jsval \<times> 'n jsval) list option" where
  "map_entries [] = Some []"
| "map_entries (x # xs) =
     (case map_entry x of
        None \<Rightarrow> None
      | Some e \<Rightarrow> (case map_entries xs of None \<Rightarrow> None | Some es \<Rightarrow> Some (e # es)))"

text \<open>\<open>new Map(x)\<close> and \<open>new Set(x)\<close>; \<open>None\<close> is the \<open>TypeError\<close> of an argument that is
  not iterable or, for \<open>Map\<close>, has an item that is not an object.\<close>

definition new_Map :: "'n jsval \<Rightarrow> 'n jsval option" where
  "new_Map x =
     (case x of
        Undefined \<Rightarrow> Some (MapV [])
      | Null \<Rightarrow> Some (MapV [])
      | Arr items \<Rightarrow>
          (case map_entries items of
             None \<Rightarrow> None
           | Some es \<Rightarrow> Some (MapV (foldl (\<lambda>m (k, v). map_set m k v) [] es)))
      | Str s \<Rightarrow> (if s = [] then Some (MapV []) else None)
      | MapV es \<Rightarrow> Some (MapV es)
      | SetV xs \<Rightarrow>
          (case map_entries xs of
             None \<Rightarrow> None
           | Some es \<Rightarrow> Some (MapV (foldl (\<lambda>m (k, v). map_set m k v) [] es)))
      | _ \<Rightarrow> None)"

definition new_Set :: "'n jsval \<Rightarrow> 'n jsval option" where
  "new_Set x =
     (case x of
        Undefined \<Rightarrow> Some (SetV [])
      | Null \<Rightarrow> Some (SetV [])
      | Arr items \<Rightarrow> Some (SetV (foldl set_add [] items))
      | Str s \<Rightarrow> Some (SetV (foldl set_add [] (map (\<lambda>c. Str [c]) s)))
      | MapV es \<Rightarrow> Some (SetV (map (\<lambda>(k, v). Arr [k, v]) es))
      | SetV xs \<Rightarrow> Some (SetV xs)
      | _ \<Rightarrow> None)"

text \<open>\<open>value.slice(4, -1)\<close>.\<close>

definition slice_4_m1 :: "string \<Rightarrow> string" where
  "slice_4_m1 v = butlast (drop 4 v)"

text \<open>The \<open>try { ... } catch { }\<close> block of \<open>parse\<close>: \<open>parsedValue\<close> starts as \<open>value\<close>
  and keeps it when anything inside the block raises.\<close>

definition parseValue :: "'n platform \<Rightarrow> string \<Rightarrow> 'n jsval" where
  "parseValue P v =
     (if startsWith v ''map('' \<and> endsWith v '')'' then
        (case json_parse P (slice_4_m1 v) of
           None \<Rightarrow> Str v
         | Some j \<Rightarrow> (case new_Map j of None \<Rightarrow> Str v | Some m \<Rightarrow> m))
      else if startsWith v ''set('' \<and> endsWith v '')'' then
        (case json_parse P (slice_4_m1 v) of
           None \<Rightarrow> Str v
         | Some j \<Rightarrow> (case new_Set j of None \<Rightarrow> Str v | Some s \<Rightarrow> s))
      else
        (case json_parse P v of None \<Rightarrow> Str v | Some j \<Rightarrow> j))"

section \<open>Parse: writing a value at a path (lodash \<open>set\<close>)\<close>

definition digits_value :: "string \<Rightarrow> nat" where
  "digits_value s = foldl (\<lambda>a c. 10 * a + (of_char c - 48)) 0 s"

text \<open>lodash \<open>reIsUint\<close>, \<open>/^(?:0|[1-9]\d*)$/\<close>.\<close>

definition reIsUint :: "string \<Rightarrow> bool" where
  "reIsUint s = (s = ''0'' \<or> (s \<noteq> [] \<and> list_all is_digit s \<and> take 1 s \<noteq> ''0''))"

text \<open>lodash \<open>isIndex(value)\<close> on a string: an unsigned integer below
  \<open>MAX_SAFE_INTEGER\<close>.\<close>

definition isIndex :: "string \<Rightarrow> bool" where
  "isIndex s = (reIsUint s \<and> digits_value s < 2 ^ 53 - 1)"

text \<open>The property keys an array treats as element indices: canonical numeric strings
  below \<open>2^32 - 1\<close>.\<close>

definition is_array_index :: "string \<Rightarrow> bool" where
  "is_array_index s = (reIsUint s \<and> digits_value s < 2 ^ 32 - 1)"

text \<open>The keys at which \<open>baseSet\<close> returns without writing.\<close>

definition blocked_keys :: "string list" where
  "blocked_keys = [''__proto__'', ''constructor'', ''prototype'']"

text \<open>The property names every object inherits from \<open>Object.prototype\<close>.\<close>

definition object_prototype_names :: "string list" where
  "object_prototype_names =
     [''constructor'', ''__defineGetter__'', ''__defineSetter__'', ''hasOwnProperty'',
      ''__lookupGetter__'', ''__lookupSetter__'', ''isPrototypeOf'', ''propertyIsEnumerable'',
      ''toString'', ''valueOf'', ''__proto__'', ''toLocaleString'']"

text \<open>\<open>nested[key]\<close>, read on the way down a path.\<close>

fun get_prop :: "'n jsval \<Rightarrow> string \<Rightarrow> 'n jsval outcome" where
  "get_prop (Obj kvs) key =
     (case map_of kvs key of
        Some v \<Rightarrow> Returns v
      | None \<Rightarrow> (if key \<in> set object_prototype_names then Unmodelled else Returns Undefined))"
| "get_prop (Arr xs) key =
     (if is_array_index key then Returns (elem_or_undefined xs (digits_value key)) else Unmodelled)"
| "get_prop v key = Unmodelled"

text \<open>
  A new own property of a plain object: JavaScript enumerates integer-like keys first, in
  ascending order, then the other keys in insertion order.
\<close>

fun obj_insert :: "(string \<times> 'n jsval) list \<Rightarrow> string \<Rightarrow> 'n jsval \<Rightarrow> (string \<times> 'n jsval) list" where
  "obj_insert [] k v = [(k, v)]"
| "obj_insert ((k', v') # kvs) k v =
     (if is_array_index k \<and> (\<not> is_array_index k' \<or> digits_value k < digits_value k')
      then (k, v) # (k', v') # kvs
      else (k', v') # obj_insert kvs k v)"

definition obj_put :: "(string \<times> 'n jsval) list \<Rightarrow> string \<Rightarrow> 'n jsval \<Rightarrow> (string \<times> 'n jsval) list" where
  "obj_put kvs k v =
     (if k \<in> fst ` set kvs then map (\<lambda>(k', v'). if k' = k then (k', v) else (k', v')) kvs
      else obj_insert kvs k v)"

text \<open>\<open>array[i] = v\<close>: a write past the end fills the gap with absent slots.\<close>

definition array_put :: "'n jsval list \<Rightarrow> nat \<Rightarrow> 'n jsval \<Rightarrow> 'n jsval list" where
  "array_put xs i v =
     (if i < length xs then xs[i := v] else xs @ replicate (i - length xs) Undefined @ [v])"

text \<open>
  \<open>array.length = v\<close> raises \<open>RangeError\<close> when \<open>ToNumber(v)\<close> is not an unsigned 32-bit
  integer. A string containing a letter that occurs in no numeric literal converts to
  \<open>NaN\<close>; the coercion of other values is not modelled.
\<close>

definition non_numeric_letters :: "string" where
  "non_numeric_letters = ''ghjklmpqrsuvwz''"

definition assign_length :: "'n jsval list \<Rightarrow> 'n jsval \<Rightarrow> 'n jsval outcome" where
  "assign_length xs v =
     (case v of
        Str s \<Rightarrow> (if \<exists>c \<in> set s. c \<in> set non_numeric_letters then Throws RangeError else Unmodelled)
      | _ \<Rightarrow> Unmodelled)"

text \<open>lodash \<open>assignValue(object, key, value)\<close>, that is \<open>object[key] = value\<close> (skipped
  by lodash when the property already holds the value, with the same result).\<close>

fun assignValue :: "'n jsval \<Rightarrow> string \<Rightarrow> 'n jsval \<Rightarrow> 'n jsval outcome" where
  "assignValue (Obj kvs) key v = Returns (Obj (obj_put kvs key v))"
| "assignValue (Arr xs) key v =
     (if is_array_index key then Returns (Arr (array_put xs (digits_value key) v))
      else if key = ''length'' then assign_length xs v
      else Unmodelled)"
| "assignValue w key v = Unmodelled"

text \<open>
  lodash \<open>baseSet\<close>, the loop over the path as a recursion: \<open>nested\<close> is the container
  reached so far, the result is that container after the write. An intermediate
  container is kept when it is an object and otherwise replaced by \<open>[]\<close> or \<open>{}\<close>
  according to the next path element.
\<close>

fun baseSet :: "'n jsval \<Rightarrow> string list \<Rightarrow> 'n jsval \<Rightarrow> 'n jsval outcome" where
  "baseSet nested [] v = Returns nested"
| "baseSet nested [key] v =
     (if key \<in> set blocked_keys then Returns nested else assignValue nested key v)"
| "baseSet nested (key # next # rest) v =
     (if key \<in> set blocked_keys then Returns nested
      else bind (get_prop nested key) (\<lambda>objValue.
        let newValue = (if isObject objValue then objValue
                        else if isIndex next then Arr [] else Obj [])
        in bind (assignValue nested key newValue) (\<lambda>nested'.
           bind (baseSet newValue (next # rest) v) (\<lambda>child.
             assignValue nested' key child))))"

definition lodash_set :: "'n jsval \<Rightarrow> string list \<Rightarrow> 'n jsval \<Rightarrow> 'n jsval outcome" where
  "lodash_set object path v = (if isObject object then baseSet object path v else Returns object)"

section \<open>Parse\<close>

text \<open>lodash \<open>reduce\<close> over an array with a callback that may raise.\<close>

fun reduce :: "('a \<Rightarrow> 'b \<Rightarrow> 'a outcome) \<Rightarrow> 'b list \<Rightarrow> 'a \<Rightarrow> 'a outcome" where
  "reduce f [] acc = Returns acc"
| "reduce f (x # xs) acc = bind (f acc x) (reduce f xs)"

text \<open>The callback of the \<open>reduce\<close> in \<open>parse\<close>: one \<open>&\<close>-separated parameter.\<close>

definition parseParam :: "'n platform \<Rightarrow> 'n QsOptions \<Rightarrow> 'n jsval \<Rightarrow> string \<Rightarrow> 'n jsval outcome" where
  "parseParam P opts reduction param =
     (if param = [] then Returns reduction
      else
        let parts = js_split CHR ''='' param;
            key = first parts;
            valueParts = slice1 parts
        in case key of
             None \<Rightarrow> Returns reduction
           | Some k \<Rightarrow>
               if k = [] then Returns reduction
               else if (case prefix_truthy opts of Some p \<Rightarrow> \<not> startsWith k p | None \<Rightarrow> False)
               then Returns reduction
               else
                 let rawValue = js_join ''='' valueParts
                 in bind (decodeRaw P rawValue) (\<lambda>v.
                      let transformedKey = reverseTransformKey P (removePrefix k opts) opts;
                          path = flatPath transformedKey;
                          parsedValue = parseValue P v
                      in lodash_set reduction path parsedValue))"

definition parse :: "'n platform \<Rightarrow> string \<Rightarrow> 'n QsOptions \<Rightarrow> 'n jsval outcome" where
  "parse P str opts =
     (if str = [] then Returns (Obj [])
      else
        let cleanStr = trimStart (trim str '' '') ''?''
        in reduce (parseParam P opts) (js_split CHR ''&'' cleanStr) (Obj []))"

section \<open>Stringify\<close>

definition needsEncoding :: "string \<Rightarrow> bool" where
  "needsEncoding v = (\<exists>c \<in> set v. c \<in> set ''&=#'')"

text \<open>
  The inner \<open>processValue\<close>. \<open>String(value)\<close> is spelled out for booleans and strings and
  left to the platform for numbers. \<open>buildKeyValuePairs\<close> never passes a plain object or
  an array; \<open>String(value)\<close> of an array is not modelled.
\<close>

fun stringValue :: "'n platform \<Rightarrow> 'n jsval \<Rightarrow> string outcome" where
  "stringValue P (Date d) = (case d of None \<Rightarrow> Throws RangeError | Some t \<Rightarrow> Returns t)"
| "stringValue P (MapV es) =
     Returns (''map('' @ json_stringify P (Arr (map (\<lambda>(k, v). Arr [k, v]) es)) @ '')'')"
| "stringValue P (SetV xs) = Returns (''set('' @ json_stringify P (Arr xs) @ '')'')"
| "stringValue P (Obj kvs) = Returns (json_stringify P (Obj kvs))"
| "stringValue P (Arr xs) = Unmodelled"
| "stringValue P (Bool b) = Returns (if b then ''true'' else ''false'')"
| "stringValue P (Num n) = Returns (number_toString P n)"
| "stringValue P (Str s) = Returns s"
| "stringValue P Undefined = Returns ''undefined''"
| "stringValue P Null = Returns ''null''"

definition processValue :: "'n platform \<Rightarrow> 'n jsval \<Rightarrow> string outcome" where
  "processValue P v =
     (if v = Undefined \<or> v = Null then Returns []
      else bind (stringValue P v) (\<lambda>s.
             Returns (if needsEncoding s then encodeURIComponent P s else s)))"

text \<open>
  \<open>Array.prototype.includes\<close> compares by SameValueZero: a primitive is found when the
  list holds an equal primitive, an object only when the list holds that very object. The
  values carry no identity. An object that equals no element of the list is certainly not
  in it; whether one that equals an element is that element is not determined (\<open>None\<close>).
\<close>

definition js_includes :: "'n jsval list \<Rightarrow> 'n jsval \<Rightarrow> bool option" where
  "js_includes xs v =
     (if is_primitive v then Some (v \<in> set xs)
      else if v \<in> set xs then None else Some False)"

text \<open>\<open>shouldOmitValue(value, key, options)\<close>; \<open>None\<close> when \<open>includes\<close> is not determined.\<close>

definition shouldOmitValue :: "'n jsval \<Rightarrow> pkey \<Rightarrow> 'n QsOptions \<Rightarrow> bool option" where
  "shouldOmitValue v key opts =
     (case omitValues opts of
        None \<Rightarrow> Some (v = Undefined \<or> v = Null \<or> v = Str [] \<or> v = MapV [] \<or> v = SetV [])
      | Some (OmitFn f) \<Rightarrow> Some (f v key)
      | Some (OmitList xs) \<Rightarrow> js_includes xs v)"

text \<open>The decimal text of an index, as a template literal prints it.\<close>

fun show_nat :: "nat \<Rightarrow> string" where
  "show_nat n = (if n < 10 then [char_of (48 + n)] else show_nat (n div 10) @ [char_of (48 + n mod 10)])"

declare show_nat.simps [simp del]

definition key_text :: "pkey \<Rightarrow> string" where
  "key_text k = (case k of SKey s \<Rightarrow> s | NKey n \<Rightarrow> show_nat n)"

text \<open>The condition \<open>prefix ? ... : ...\<close>: the empty string and the number zero are
  falsy.\<close>

definition key_truthy :: "pkey \<Rightarrow> bool" where
  "key_truthy k = (case k of SKey s \<Rightarrow> s \<noteq> [] | NKey n \<Rightarrow> n \<noteq> 0)"

text \<open>\<open>prefix ? `${prefix}.${key}` : key\<close>.\<close>

definition keyPathOf :: "pkey \<Rightarrow> pkey \<Rightarrow> pkey" where
  "keyPathOf pfx key = (if key_truthy pfx then SKey (key_text pfx @ ''.'' @ key_text key) else key)"

text \<open>\<open>transformKey(keyPath, options)\<close> at a leaf, followed by the template literal:
  with a case configured a numeric key path raises \<open>TypeError\<close> (\<open>key.split\<close> is not a
  function).\<close>

definition transformKeyPath :: "'n platform \<Rightarrow> pkey \<Rightarrow> 'n QsOptions \<Rightarrow> string outcome" where
  "transformKeyPath P kp opts =
     (case kp of
        SKey s \<Rightarrow> Returns (transformKey P s opts)
      | NKey n \<Rightarrow> (if qcase opts = None then Returns (show_nat n) else Throws TypeError))"

text \<open>A leaf pair \<open>`${addPrefix(key, options)}=${processValue(value)}`\<close>.\<close>

definition leafPair :: "'n platform \<Rightarrow> 'n QsOptions \<Rightarrow> string \<Rightarrow> 'n jsval \<Rightarrow> string list outcome" where
  "leafPair P opts key v = bind (processValue P v) (\<lambda>pv. Returns [addPrefix key opts @ ''='' @ pv])"

text \<open>
  lodash \<open>isArrayLike\<close> on a plain object: its \<open>length\<close> property is a valid length.
  \<open>reduce\<close> then walks the indices below that length, reading \<open>object[index]\<close>, which is
  \<open>undefined\<close> where the object has no such property.
\<close>

definition array_like_length :: "'n platform \<Rightarrow> (string \<times> 'n jsval) list \<Rightarrow> nat option" where
  "array_like_length P kvs =
     (case map_of kvs ''length'' of Some (Num n) \<Rightarrow> validLength P n | _ \<Rightarrow> None)"

definition indexed_values :: "(string \<times> 'n jsval) list \<Rightarrow> nat \<Rightarrow> 'n jsval list" where
  "indexed_values kvs len =
     map (\<lambda>i. case map_of kvs (show_nat i) of Some v \<Rightarrow> v | None \<Rightarrow> Undefined) [0..<len]"

text \<open>The largest size among the items of a list, which bounds the recursion over the
  indexed values of an array-like object.\<close>

definition max_size :: "'n jsval list \<Rightarrow> nat" where
  "max_size xs = foldr (\<lambda>x. max (size x)) xs 0"

lemma max_size_Cons: "max_size (x # xs) = max (size x) (max_size xs)"
  by (simp add: max_size_def)

lemma max_size_le_size_list: "max_size xs \<le> size_list size xs"
  by (induction xs) (simp_all add: max_size_def)

lemma size_map_of:
  "map_of kvs k = Some v \<Longrightarrow> size v \<le> size_list (size_prod (\<lambda>_. 0) size) kvs"
  by (induction kvs) (auto split: if_splits)

lemma max_size_indexed_values:
  assumes "array_like_length P kvs = Some len"
  shows "max_size (indexed_values kvs len) \<le> size_list (size_prod (\<lambda>_. 0) size) kvs"
proof -
  from assms have "kvs \<noteq> []" by (auto simp: array_like_length_def)
  then have one: "Suc 0 \<le> size_list (size_prod (\<lambda>_. 0) size) kvs" by (cases kvs) simp_all
  have "max_size (map (\<lambda>i. case map_of kvs (show_nat i) of Some v \<Rightarrow> v | None \<Rightarrow> Undefined) is)
          \<le> size_list (size_prod (\<lambda>_. 0) size) kvs" for "is"
    using one by (induction "is") (auto simp: max_size_def dest: size_map_of split: option.splits)
  then show ?thesis by (simp add: indexed_values_def)
qed

text \<open>
  The inner \<open>buildKeyValuePairs(input, prefix)\<close>. lodash \<open>reduce\<close> visits the own
  enumerable entries of a plain object (\<open>reduceObject\<close>), the indices of an array and of an
  array-like object (\<open>reduceArray\<close>, from index \<open>i\<close>); a \<open>Map\<close>, a \<open>Set\<close> and a primitive
  have no entries. \<open>pairCallback\<close> is the callback (it returns the pairs it appends to the
  reduction) and \<open>arrayPairs\<close> the flattened \<open>map\<close> over the items of an array.
\<close>

function buildKeyValuePairs :: "'n platform \<Rightarrow> 'n QsOptions \<Rightarrow> 'n jsval \<Rightarrow> pkey \<Rightarrow> string list outcome"
  and reduceObject :: "'n platform \<Rightarrow> 'n QsOptions \<Rightarrow> pkey \<Rightarrow> (string \<times> 'n jsval) list \<Rightarrow> string list outcome"
  and reduceArray :: "'n platform \<Rightarrow> 'n QsOptions \<Rightarrow> pkey \<Rightarrow> nat \<Rightarrow> 'n jsval list \<Rightarrow> string list outcome"
  and pairCallback :: "'n platform \<Rightarrow> 'n QsOptions \<Rightarrow> pkey \<Rightarrow> 'n jsval \<Rightarrow> string list outcome"
  and arrayPairs :: "'n platform \<Rightarrow> 'n QsOptions \<Rightarrow> string \<Rightarrow> nat \<Rightarrow> 'n jsval list \<Rightarrow> string list outcome"
where
  "buildKeyValuePairs P opts input pfx =
     (case input of
        Obj kvs \<Rightarrow>
          (case array_like_length P kvs of
             Some len \<Rightarrow> reduceArray P opts pfx 0 (indexed_values kvs len)
           | None \<Rightarrow> reduceObject P opts pfx kvs)
      | Arr xs \<Rightarrow> reduceArray P opts pfx 0 xs
      | _ \<Rightarrow> Returns [])"
| "reduceObject P opts pfx [] = Returns []"
| "reduceObject P opts pfx ((key, v) # kvs) =
     bind (pairCallback P opts (keyPathOf pfx (SKey key)) v) (\<lambda>ps.
       bind (reduceObject P opts pfx kvs) (\<lambda>qs. Returns (ps @ qs)))"
| "reduceArray P opts pfx i [] = Returns []"
| "reduceArray P opts pfx i (v # xs) =
     bind (pairCallback P opts (keyPathOf pfx (NKey i)) v) (\<lambda>ps.
       bind (reduceArray P opts pfx (Suc i) xs) (\<lambda>qs. Returns (ps @ qs)))"
| "pairCallback P opts keyPath v =
     (case shouldOmitValue v keyPath opts of
        None \<Rightarrow> Unmodelled
      | Some omit \<Rightarrow>
          if omit then Returns []
          else case v of
              Arr xs \<Rightarrow> (if xs = [] then Returns [] else arrayPairs P opts (key_text keyPath) 0 xs)
            | Obj kvs \<Rightarrow> (if kvs = [] then Returns [] else buildKeyValuePairs P opts v keyPath)
            | _ \<Rightarrow> bind (transformKeyPath P keyPath opts) (\<lambda>transformedKey.
                     leafPair P opts transformedKey v))"
| "arrayPairs P opts keyPath i [] = Returns []"
| "arrayPairs P opts keyPath i (item # items) =
     (let arrayKey = transformKey P (keyPath @ ''['' @ show_nat i @ '']'') opts
      in bind (if isObject item \<and> (case item of Date _ \<Rightarrow> False | _ \<Rightarrow> True)
               then buildKeyValuePairs P opts item (SKey arrayKey)
               else leafPair P opts arrayKey item) (\<lambda>ps.
           bind (arrayPairs P opts keyPath (Suc i) items) (\<lambda>qs. Returns (ps @ qs))))"

  by pat_completeness auto
termination
  apply (relation "measures
     [\<lambda>x. case x of
        Inl (Inl (P, opts, v, pfx)) \<Rightarrow> 3 * size v
      | Inl (Inr (P, opts, pfx, kvs)) \<Rightarrow> 3 * size_list (size_prod (\<lambda>_. 0) size) kvs + 1
      | Inr (Inl (P, opts, pfx, i, xs)) \<Rightarrow> 3 * max_size xs + 2
      | Inr (Inr (Inl (P, opts, kp, v))) \<Rightarrow> 3 * size v + 1
      | Inr (Inr (Inr (P, opts, kp, i, xs))) \<Rightarrow> 3 * size_list size xs + 1,
      \<lambda>x. case x of Inr (Inl (P, opts, pfx, i, xs)) \<Rightarrow> length xs | _ \<Rightarrow> 0]")
  apply (simp_all add: max_size_Cons)
  subgoal for P input kvs len
    using max_size_indexed_values [of P kvs len] by simp
  subgoal for input xs
    using max_size_le_size_list [of xs] by simp
  subgoal for v xs
    by (simp add: max_def)
  subgoal for v xs
    by (auto simp: max_def)
  done

text \<open>lodash \<open>isEmpty\<close>.\<close>

definition isEmpty :: "'n jsval \<Rightarrow> bool" where
  "isEmpty v =
     (case v of
        Obj kvs \<Rightarrow> kvs = []
      | Arr xs \<Rightarrow> xs = []
      | Str s \<Rightarrow> s = []
      | MapV es \<Rightarrow> es = []
      | SetV xs \<Rightarrow> xs = []
      | _ \<Rightarrow> True)"

text \<open>
  \<open>stringify(obj, options)\<close>. lodash \<open>isEmpty\<close> and \<open>reduce\<close> treat a string as the array of
  its characters, so a top-level string is walked as that array (\<open>collection\<close>).
\<close>

definition collection :: "'n jsval \<Rightarrow> 'n jsval" where
  "collection obj = (case obj of Str s \<Rightarrow> Arr (map (\<lambda>c. Str [c]) s) | _ \<Rightarrow> obj)"

definition stringify :: "'n platform \<Rightarrow> 'n jsval \<Rightarrow> 'n QsOptions \<Rightarrow> string outcome" where
  "stringify P obj opts =
     (if isEmpty obj then Returns []
      else bind (buildKeyValuePairs P opts (collection obj) (SKey [])) (\<lambda>pairs.
             Returns (if length pairs \<noteq> 0
                      then (if addQueryPrefix opts \<noteq> Some False then ''?'' else [])
                           @ js_join ''&'' pairs
                      else [])))"

section \<open>An example platform\<close>

text \<open>
  Closed examples need concrete built-ins. \<open>example_platform\<close> takes numbers to be
  integers and agrees with the JavaScript built-ins on the strings the examples below
  pass to it: \<open>JSON.parse\<close> and \<open>JSON.stringify\<close> are the finite tables of their values
  on the listed arguments (every other string used as an argument below is not JSON),
  percent-decoding covers escapes of ASCII characters, and the case converters are the
  tables of lodash's results on the listed words.
\<close>

definition example_json :: "(string \<times> int jsval) list" where
  \<open>example_json =
     [(''1'', Num 1), (''2'', Num 2), (''5'', Num 5), (''25'', Num 25), (''true'', Bool True),
      (''null'', Null), (''{}'', Obj []),
      (''[]'', Arr []),
      (''[1,2]'', Arr [Num 1, Num 2]),
      (''[1,1,2]'', Arr [Num 1, Num 1, Num 2]),
      (''[["k","v"]]'', Arr [Arr [Str ''k'', Str ''v'']]),
      (''{"a":1}'', Obj [(''a'', Num 1)])]\<close>

definition hex_value :: "char \<Rightarrow> nat option" where
  "hex_value c =
     (let n = of_char c
      in if 48 \<le> n \<and> n \<le> 57 then Some (n - 48)
         else if 65 \<le> n \<and> n \<le> 70 then Some (n - 55)
         else if 97 \<le> n \<and> n \<le> 102 then Some (n - 87)
         else None)"

text \<open>\<open>decodeURIComponent\<close> on text whose escapes all denote ASCII characters; \<open>None\<close> is
  the \<open>URIError\<close> of a \<open>%\<close> that is not followed by two hexadecimal digits.\<close>

fun percent_decode :: "string \<Rightarrow> string option" where
  "percent_decode [] = Some []"
| "percent_decode (c # cs) =
     (if c = CHR ''%'' then
        (case cs of
           h1 # h2 # rest \<Rightarrow>
             (case (hex_value h1, hex_value h2) of
                (Some a, Some b) \<Rightarrow>
                  (if 16 * a + b < 128
                   then map_option ((#) (char_of (16 * a + b))) (percent_decode rest)
                   else None)
              | _ \<Rightarrow> None)
         | _ \<Rightarrow> None)
      else map_option ((#) c) (percent_decode cs))"

definition hex_digit :: "nat \<Rightarrow> char" where
  "hex_digit n = (if n < 10 then char_of (48 + n) else char_of (55 + n))"

text \<open>\<open>encodeURIComponent\<close>: every character outside \<open>A-Z a-z 0-9 - _ . ! ~ * ' ( )\<close>
  becomes \<open>%XX\<close>.\<close>

definition uri_unreserved :: "char \<Rightarrow> bool" where
  "uri_unreserved c =
     (let n = (of_char c :: nat)
      in (48 \<le> n \<and> n \<le> 57) \<or> (65 \<le> n \<and> n \<le> 90) \<or> (97 \<le> n \<and> n \<le> 122)
         \<or> c \<in> set ''-_.!~*()'' \<or> n = 39)"

definition percent_encode :: "string \<Rightarrow> string" where
  "percent_encode s =
     concat (map (\<lambda>c. if uri_unreserved c then [c]
                       else [CHR ''%'', hex_digit (of_char c div 16), hex_digit (of_char c mod 16)]) s)"

definition show_int :: "int \<Rightarrow> string" where
  "show_int i = (if i < 0 then CHR ''-'' # show_nat (nat (- i)) else show_nat (nat i))"

definition table_or_same :: "(string \<times> string) list \<Rightarrow> string \<Rightarrow> string" where
  "table_or_same t s = (case map_of t s of Some r \<Rightarrow> r | None \<Rightarrow> s)"

definition example_platform :: "int platform" where
  "example_platform =
     \<lparr> json_parse = map_of example_json,
       json_stringify = (\<lambda>v. case map_of (map (\<lambda>(s, j). (j, s)) example_json) v of
                               Some s \<Rightarrow> s | None \<Rightarrow> []),
       decodeURIComponent = percent_decode,
       encodeURIComponent = percent_encode,
       number_toString = show_int,
       validLength = (\<lambda>n. if 0 \<le> n \<and> n < 2 ^ 53 then Some (nat n) else None),
       camelCase = table_or_same [(''foo_bar'', ''fooBar''), (''foo-bar'', ''fooBar'')],
       snakeCase = table_or_same [(''fooBar'', ''foo_bar''), (''bazQux'', ''baz_qux'')],
       kebabCase = table_or_same [(''fooBar'', ''foo-bar''), (''bazQux'', ''baz-qux'')] \<rparr>"

definition no_options :: "int QsOptions" where
  "no_options = \<lparr> addQueryPrefix = None, qcase = None, omitValues = None, prefix = None,
                  restoreCase = None \<rparr>"

section \<open>Facts about splitting and joining\<close>

lemma js_split_not_Nil: "js_split sep s \<noteq> []"
  by (induction s) (auto split: list.splits)

lemma js_split_eq:
  "js_split sep s =
     takeWhile (\<lambda>c. c \<noteq> sep) s
       # (if sep \<in> set s then js_split sep (drop 1 (dropWhile (\<lambda>c. c \<noteq> sep) s)) else [])"
proof (induction s)
  case Nil
  then show ?case by simp
next
  case (Cons c s)
  then show ?case by (auto split: list.splits)
qed

lemma js_join_split: "js_join [sep] (js_split sep s) = s"
proof (induction s)
  case Nil
  then show ?case by simp
next
  case (Cons c s)
  show ?case
  proof (cases "c = sep")
    case True
    with Cons show ?thesis
      by (cases "js_split sep s") (auto simp: js_split_not_Nil)
  next
    case False
    with Cons show ?thesis
      by (cases "js_split sep s"; cases "tl (js_split sep s)") (auto simp: js_split_not_Nil)
  qed
qed

lemma js_split_no_sep: "x \<in> set (js_split sep s) \<Longrightarrow> sep \<notin> set x"
  by (induction s arbitrary: x) (auto split: if_splits list.splits)

lemma js_split_single: "sep \<notin> set s \<Longrightarrow> js_split sep s = [s]"
  by (induction s) auto

lemma js_split_append_left:
  "sep \<notin> set a \<Longrightarrow> js_split sep (a @ b) = (a @ hd (js_split sep b)) # tl (js_split sep b)"
  by (induction a) (auto simp: js_split_not_Nil split: list.splits)

lemma first_js_split: "first (js_split sep s) = Some (takeWhile (\<lambda>c. c \<noteq> sep) s)"
  by (subst js_split_eq) (simp add: first_def)

lemma dropWhile_no_sep: "sep \<notin> set s \<Longrightarrow> dropWhile (\<lambda>c. c \<noteq> sep) s = []"
  by (induction s) auto

lemma takeWhile_no_sep: "sep \<notin> set s \<Longrightarrow> takeWhile (\<lambda>c. c \<noteq> sep) s = s"
  by (induction s) auto

lemma dropWhile_sep: "sep \<in> set s \<Longrightarrow> \<exists>r. dropWhile (\<lambda>c. c \<noteq> sep) s = sep # r"
  by (induction s) auto

lemma join_rest_js_split:
  "js_join [sep] (slice1 (js_split sep s)) = drop 1 (dropWhile (\<lambda>c. c \<noteq> sep) s)"
proof (cases "sep \<in> set s")
  case True
  then show ?thesis by (subst js_split_eq) (simp add: slice1_def js_join_split)
next
  case False
  then show ?thesis by (subst js_split_eq) (simp add: slice1_def dropWhile_no_sep)
qed

section \<open>Key transform: what happens to a segment\<close>

lemma transformPart_empty_base: "transformPart f (CHR ''['' # rest) = []"
  by (simp add: transformPart_def first_def)

lemma transformPart_base_suffix:
  assumes base: "takeWhile (\<lambda>c. c \<noteq> CHR ''['') part \<noteq> []"
  shows "transformPart f part =
           f (takeWhile (\<lambda>c. c \<noteq> CHR ''['') part) @ dropWhile (\<lambda>c. c \<noteq> CHR ''['') part"
proof (cases "CHR ''['' \<in> set part")
  case False
  with assms have "part \<noteq> []" by auto
  with False show ?thesis
    by (simp add: transformPart_def first_def slice1_def js_split_single dropWhile_no_sep
        takeWhile_no_sep)
next
  case True
  from dropWhile_sep [OF True] obtain r
    where r: "dropWhile (\<lambda>c. c \<noteq> CHR ''['') part = CHR ''['' # r" ..
  have fst: "first (js_split CHR ''['' part) = Some (takeWhile (\<lambda>c. c \<noteq> CHR ''['') part)"
    by (rule first_js_split)
  have "js_split CHR ''['' part =
          takeWhile (\<lambda>c. c \<noteq> CHR ''['') part # js_split CHR ''['' r"
    by (subst js_split_eq) (simp add: True r)
  then have rest: "slice1 (js_split CHR ''['' part) = js_split CHR ''['' r"
    by (simp add: slice1_def)
  have ne: "js_split CHR ''['' r \<noteq> []" by (rule js_split_not_Nil)
  have jn: "js_join ''['' (js_split CHR ''['' r) = r" by (rule js_join_split)
  show ?thesis
    unfolding transformPart_def Let_def fst rest r by (simp add: base ne jn)
qed

text \<open>
  Claim C9 says that the key transform and its reverse change only the non-bracket base
  of each segment and leave every bracket suffix untouched. \<open>transformPart_base_suffix\<close>
  shows this for a segment whose base is not empty. For a segment with an empty base the
  code returns the empty string and the bracket suffix is lost, for every case setting
  and whatever the case converter does: the key \<open>[0]\<close> becomes the empty key.
\<close>

theorem transformKey_empty_base_drops_index:
  "transformKey P ''[0]'' (opts\<lparr>qcase := Some c\<rparr>) = []
   \<and> reverseTransformKey P ''[0]'' (opts\<lparr>restoreCase := Some (RestoreTo c)\<rparr>) = []"
  by (simp add: transformKey_def reverseTransformKey_def restoreCaseOf_def transformPart_empty_base)

section \<open>Parse: one parameter\<close>

lemma decodeRaw_returns:
  "decodeRaw P raw = Returns (case decodeURIComponent P raw of Some d \<Rightarrow> d | None \<Rightarrow> raw)"
  by (auto simp: decodeRaw_def isEncoded_def split: option.splits)

lemma parseParam_eq:
  "parseParam P opts reduction param =
     (let k = takeWhile (\<lambda>c. c \<noteq> CHR ''='') param;
          rawValue = drop 1 (dropWhile (\<lambda>c. c \<noteq> CHR ''='') param)
      in if k = [] then Returns reduction
         else if (case prefix_truthy opts of Some p \<Rightarrow> \<not> startsWith k p | None \<Rightarrow> False)
         then Returns reduction
         else bind (decodeRaw P rawValue) (\<lambda>v.
                lodash_set reduction
                  (flatPath (reverseTransformKey P (removePrefix k opts) opts))
                  (parseValue P v)))"
  by (cases "param = []") (simp_all add: parseParam_def first_js_split join_rest_js_split Let_def)

text \<open>The definitions unfolded to evaluate \<open>parse\<close> on a concrete string.\<close>

lemmas parse_eval = trim_def trimStart_def first_def slice1_def prefix_truthy_def
  decodeRaw_def isEncoded_def reverseTransformKey_def restoreCaseOf_def removePrefix_def
  flatPath_def segmentPath_def index_group_def is_digit_def parseValue_def startsWith_def endsWith_def
  slice_4_m1_def lodash_set_def isObject_def is_primitive_def blocked_keys_def object_prototype_names_def
  isIndex_def reIsUint_def digits_value_def is_array_index_def obj_put_def array_put_def
  assign_length_def non_numeric_letters_def example_platform_def no_options_def example_json_def
  hex_value_def Let_def new_Map_def new_Set_def map_entry_def elem_or_undefined_def set_add_def

text \<open>
  Claim C7. In every parameter the key is the text before the first \<open>=\<close> and the value
  the text after it (which may contain further \<open>=\<close>): \<open>parseParam\<close> is a function of
  these two. A parameter whose key is empty is discarded, and a parameter without any
  \<open>=\<close> is its own key, with the empty string as raw value.
\<close>

theorem parseParam_splits_at_first_equals:
  "parseParam P opts reduction param =
     (let k = takeWhile (\<lambda>c. c \<noteq> CHR ''='') param;
          rawValue = drop 1 (dropWhile (\<lambda>c. c \<noteq> CHR ''='') param)
      in if k = [] then Returns reduction
         else if (case prefix_truthy opts of Some p \<Rightarrow> \<not> startsWith k p | None \<Rightarrow> False)
         then Returns reduction
         else bind (decodeRaw P rawValue) (\<lambda>v.
                lodash_set reduction
                  (flatPath (reverseTransformKey P (removePrefix k opts) opts))
                  (parseValue P v)))
   \<and> (takeWhile (\<lambda>c. c \<noteq> CHR ''='') param = [] \<longrightarrow>
        parseParam P opts reduction param = Returns reduction)
   \<and> (CHR ''='' \<notin> set param \<and> param \<noteq> [] \<and> prefix_truthy opts = None \<longrightarrow>
        parseParam P opts reduction param =
          bind (decodeRaw P []) (\<lambda>v.
            lodash_set reduction (flatPath (reverseTransformKey P param opts)) (parseValue P v)))"
proof (intro conjI impI)
  show eq: "parseParam P opts reduction param =
     (let k = takeWhile (\<lambda>c. c \<noteq> CHR ''='') param;
          rawValue = drop 1 (dropWhile (\<lambda>c. c \<noteq> CHR ''='') param)
      in if k = [] then Returns reduction
         else if (case prefix_truthy opts of Some p \<Rightarrow> \<not> startsWith k p | None \<Rightarrow> False)
         then Returns reduction
         else bind (decodeRaw P rawValue) (\<lambda>v.
                lodash_set reduction
                  (flatPath (reverseTransformKey P (removePrefix k opts) opts))
                  (parseValue P v)))"
    by (rule parseParam_eq)
  show "parseParam P opts reduction param = Returns reduction"
    if "takeWhile (\<lambda>c. c \<noteq> CHR ''='') param = []"
    using that by (simp add: eq)
  show "parseParam P opts reduction param =
          bind (decodeRaw P []) (\<lambda>v.
            lodash_set reduction (flatPath (reverseTransformKey P param opts)) (parseValue P v))"
    if "CHR ''='' \<notin> set param \<and> param \<noteq> [] \<and> prefix_truthy opts = None"
    using that by (simp add: eq takeWhile_no_sep dropWhile_no_sep removePrefix_def)
qed

theorem parseParam_splits_at_first_equals_witness:
  "parseParam example_platform no_options (Obj []) ''a=b=c'' = Returns (Obj [(''a'', Str ''b=c'')])
   \<and> parseParam example_platform no_options (Obj [(''a'', Num 1)]) ''=x'' = Returns (Obj [(''a'', Num 1)])
   \<and> parseParam example_platform no_options (Obj []) ''flag'' = Returns (Obj [(''flag'', Str [])])"
  using parseParam_splits_at_first_equals [of example_platform no_options "Obj []" "''a=b=c''"]
    parseParam_splits_at_first_equals [of example_platform no_options "Obj [(''a'', Num 1)]" "''=x''"]
    parseParam_splits_at_first_equals [of example_platform no_options "Obj []" "''flag''"]
  by (simp add: parse_eval)

section \<open>Parse: a key equal to the prefix\<close>

lemma transformPart_Nil: "transformPart f [] = []"
  by (simp add: transformPart_def first_def)

lemma reverseTransformKey_Nil: "reverseTransformKey P [] opts = []"
  by (simp add: reverseTransformKey_def transformPart_Nil split: RestoreCase.splits)

lemma map_of_obj_insert: "k \<notin> fst ` set kvs \<Longrightarrow> map_of (obj_insert kvs k v) k = Some v"
  by (induction kvs) auto

lemma map_of_obj_put: "map_of (obj_put kvs k v) k = Some v"
proof (cases "k \<in> fst ` set kvs")
  case True
  then have "map_of (map (\<lambda>(k', v'). if k' = k then (k', v) else (k', v')) kvs) k = Some v"
    by (induction kvs) auto
  with True show ?thesis by (simp add: obj_put_def)
next
  case False
  then show ?thesis by (simp add: obj_put_def map_of_obj_insert)
qed

lemma lodash_set_empty_key: "lodash_set (Obj kvs) [[]] v = Returns (Obj (obj_put kvs [] v))"
  by (simp add: lodash_set_def isObject_def is_primitive_def blocked_keys_def)

text \<open>
  Claim C10. With a prefix configured, a parameter whose key is exactly the prefix is not
  discarded: the test for an empty key comes before the prefix is removed, so the value
  is written into the result under the empty-string key.
\<close>

theorem key_equal_to_prefix_kept_under_empty_key:
  assumes "prefix opts = Some p" and "p \<noteq> []"
    and "first (js_split CHR ''='' param) = Some p"
  shows "parseParam P opts (Obj kvs) param =
           Returns (Obj (obj_put kvs []
             (parseValue P
               (case decodeURIComponent P (js_join ''='' (slice1 (js_split CHR ''='' param))) of
                  Some d \<Rightarrow> d
                | None \<Rightarrow> js_join ''='' (slice1 (js_split CHR ''='' param))))))
         \<and> map_of (obj_put kvs [] v) [] = Some v"
proof -
  from assms have pt: "prefix_truthy opts = Some p"
    by (simp add: prefix_truthy_def)
  from assms have k: "takeWhile (\<lambda>c. c \<noteq> CHR ''='') param = p"
    by (simp add: first_js_split)
  have rp: "removePrefix p opts = []"
    by (simp add: removePrefix_def pt startsWith_def)
  show ?thesis
    by (simp add: parseParam_eq k assms(2) pt startsWith_def rp reverseTransformKey_Nil flatPath_def
        segmentPath_def decodeRaw_returns lodash_set_empty_key map_of_obj_put join_rest_js_split
        cong: option.case_cong)
qed

theorem key_equal_to_prefix_kept_under_empty_key_witness:
  "parseParam example_platform (no_options\<lparr>prefix := Some ''api-''\<rparr>) (Obj [(''a'', Num 1)]) ''api-=5''
     = Returns (Obj [(''a'', Num 1), ([], Num 5)])"
  using key_equal_to_prefix_kept_under_empty_key
    [of "no_options\<lparr>prefix := Some ''api-''\<rparr>" "''api-''" "''api-=5''" example_platform
        "[(''a'', Num 1)]"]
  by (simp add: parse_eval)

section \<open>Parse: an exception that is not caught\<close>

text \<open>
  Claim C4 says that \<open>parse\<close> never raises. The two \<open>try\<close> blocks cover \<open>JSON.parse\<close>, the
  \<open>Map\<close> and \<open>Set\<close> constructors and \<open>decodeURIComponent\<close> (\<open>decodeRaw_returns\<close>), but the
  write into the accumulator is outside them: once \<open>a\<close> is an array, the parameter
  \<open>a.length=z\<close> assigns the string \<open>z\<close> to the array's length and the \<open>RangeError\<close>
  leaves \<open>parse\<close>.
\<close>

theorem parse_array_length_raises:
  "parse example_platform ''a[0]=1&a.length=z'' no_options = Throws RangeError"
  by (simp add: parse_def parseParam_def parse_eval)

section \<open>Parse and stringify: empty input\<close>

text \<open>
  Claim C5 as stated (any whitespace-only input parses to the empty mapping) fails for
  whitespace other than the space character, which \<open>trim(str, ' ')\<close> does not remove: a
  single tab is parsed as a key with an empty value.
\<close>

theorem parse_tab_is_a_key:
  "parse example_platform [CHR 0x09] no_options = Returns (Obj [([CHR 0x09], Str [])])"
  by (simp add: parse_def parseParam_def parse_eval)

lemma trim_blank:
  assumes "set a \<subseteq> set chars" and "set b \<subseteq> set chars" and "set q \<inter> set chars = {}"
  shows "trim (a @ q @ b) chars = q"
proof -
  define P where "P = (\<lambda>c. c \<in> set chars)"
  have a: "dropWhile P (a @ r) = dropWhile P r" for r
    using assms(1) by (intro dropWhile_append2) (auto simp: P_def)
  have b: "dropWhile P (rev b @ r) = dropWhile P r" for r
    using assms(2) by (intro dropWhile_append2) (auto simp: P_def)
  have b0: "dropWhile P b = []"
    using assms(2) by (auto simp: P_def)
  have "rev (dropWhile P (rev (dropWhile P (a @ q @ b)))) = q"
  proof (cases q)
    case Nil
    then show ?thesis by (simp add: a b0)
  next
    case (Cons c q')
    have "\<not> P c" using assms(3) Cons by (auto simp: P_def)
    then have q1: "dropWhile P (q @ b) = q @ b" using Cons by simp
    have "set (rev q) \<inter> set chars = {}"
      using assms(3) by simp
    moreover have "rev q \<noteq> []" using Cons by simp
    ultimately have q2: "dropWhile P (rev q) = rev q"
      by (cases "rev q") (auto simp: P_def)
    show ?thesis by (simp add: a b q1 q2)
  qed
  then show ?thesis
    by (simp add: trim_def P_def)
qed

text \<open>
  Claim C5, amended. An input made of space characters around an optional run of \<open>?\<close>
  (so the empty string, \<open>?\<close> and any string of spaces) parses to the empty mapping, and
  \<open>stringify\<close> of the empty object is the empty string.
\<close>

theorem parse_blank_is_empty:
  assumes "set a \<subseteq> {CHR '' ''}" and "set q \<subseteq> {CHR ''?''}" and "set b \<subseteq> {CHR '' ''}"
  shows "parse P (a @ q @ b) opts = Returns (Obj [])
         \<and> stringify P (Obj []) opts = Returns []"
proof -
  have "trim (a @ q @ b) '' '' = q"
    using assms by (intro trim_blank) auto
  moreover have "trimStart q ''?'' = []"
    using assms(2) by (auto simp: trimStart_def)
  ultimately show ?thesis
    by (simp add: parse_def stringify_def isEmpty_def parseParam_def)
qed

theorem parse_blank_is_empty_witness:
  "parse example_platform '' ?  '' no_options = Returns (Obj [])
   \<and> parse example_platform [] no_options = Returns (Obj [])
   \<and> parse example_platform ''?'' no_options = Returns (Obj [])
   \<and> stringify example_platform (Obj []) no_options = Returns []"
  using parse_blank_is_empty [of "'' ''" "''?''" "''  ''" example_platform no_options]
    parse_blank_is_empty [of "[]" "[]" "[]" example_platform no_options]
    parse_blank_is_empty [of "[]" "''?''" "[]" example_platform no_options]
  by simp

section \<open>Parse: classifying a value\<close>

lemma map_set_fresh: "k \<notin> fst ` set es \<Longrightarrow> map_set es k v = es @ [(k, v)]"
  by (induction es) auto

lemma foldl_map_set_distinct:
  "distinct (map fst (es @ kvs)) \<Longrightarrow> foldl (\<lambda>m (k, v). map_set m k v) es kvs = es @ kvs"
proof (induction kvs arbitrary: es)
  case Nil
  then show ?case by simp
next
  case (Cons kv kvs)
  obtain k v where kv: "kv = (k, v)" by (cases kv)
  from Cons.prems kv have "k \<notin> fst ` set es" by auto
  then have "map_set es k v = es @ [(k, v)]" by (rule map_set_fresh)
  moreover from Cons.prems kv have "distinct (map fst ((es @ [(k, v)]) @ kvs))" by simp
  ultimately show ?case using Cons.IH [of "es @ [(k, v)]"] kv by simp
qed

lemma foldl_set_add_distinct: "distinct (ys @ xs) \<Longrightarrow> foldl set_add ys xs = ys @ xs"
proof (induction xs arbitrary: ys)
  case Nil
  then show ?case by simp
next
  case (Cons x xs)
  then have "set_add ys x = ys @ [x]" by (simp add: set_add_def)
  moreover from Cons.prems have "distinct ((ys @ [x]) @ xs)" by simp
  ultimately show ?case using Cons.IH [of "ys @ [x]"] by simp
qed

lemma map_entries_tuples: "map_entries (map (\<lambda>(k, x). Arr [k, x]) kvs) = Some kvs"
  by (induction kvs) (auto simp: map_entry_def elem_or_undefined_def)

text \<open>
  Claim C3. A value that starts with \<open>map(\<close> and ends with \<open>)\<close> is decoded from the JSON
  inside the wrapper into a \<open>Map\<close> (an array of \<open>[key, value]\<close> tuples with distinct keys
  gives exactly those entries, in order); otherwise a value that starts with \<open>set(\<close> and
  ends with \<open>)\<close> is decoded into a \<open>Set\<close>; otherwise the whole value is JSON-parsed.
  Whenever the JSON parse or the construction fails, the result is the string itself.
  The whole-string JSON parse is not consulted for a wrapped value.
\<close>

theorem parseValue_classification:
  "(startsWith v ''map('' \<and> endsWith v '')'' \<longrightarrow>
      parseValue P v =
        (case json_parse P (slice_4_m1 v) of
           None \<Rightarrow> Str v
         | Some j \<Rightarrow> (case new_Map j of None \<Rightarrow> Str v | Some m \<Rightarrow> m)))
   \<and> (startsWith v ''set('' \<and> endsWith v '')'' \<longrightarrow>
      parseValue P v =
        (case json_parse P (slice_4_m1 v) of
           None \<Rightarrow> Str v
         | Some j \<Rightarrow> (case new_Set j of None \<Rightarrow> Str v | Some s \<Rightarrow> s)))
   \<and> (\<not> (startsWith v ''map('' \<and> endsWith v '')'')
        \<and> \<not> (startsWith v ''set('' \<and> endsWith v '')'') \<longrightarrow>
      parseValue P v = (case json_parse P v of None \<Rightarrow> Str v | Some j \<Rightarrow> j))
   \<and> (startsWith v ''map('' \<and> endsWith v '')''
        \<and> json_parse P (slice_4_m1 v) = Some (Arr (map (\<lambda>(k, x). Arr [k, x]) kvs))
        \<and> distinct (map fst kvs) \<longrightarrow>
      parseValue P v = MapV kvs)
   \<and> (startsWith v ''set('' \<and> endsWith v '')''
        \<and> json_parse P (slice_4_m1 v) = Some (Arr xs) \<and> distinct xs \<longrightarrow>
      parseValue P v = SetV xs)"
proof -
  have excl: "startsWith v ''set('' \<Longrightarrow> \<not> startsWith v ''map(''"
    by (auto simp: startsWith_def)
  have m: "new_Map (Arr (map (\<lambda>(k, x). Arr [k, x]) kvs)) = Some (MapV kvs)"
    if "distinct (map fst kvs)"
    using that foldl_map_set_distinct [of "[]" kvs] by (simp add: new_Map_def map_entries_tuples)
  have s: "new_Set (Arr xs) = Some (SetV xs)" if "distinct xs"
    using that foldl_set_add_distinct [of "[]" xs] by (simp add: new_Set_def)
  show ?thesis
    using excl by (auto simp: parseValue_def m s)
qed

theorem parseValue_classification_witness:
  \<open>parseValue example_platform ''map([["k","v"]])'' = MapV [(Str ''k'', Str ''v'')]
   \<and> parseValue example_platform ''set([1,2])'' = SetV [Num 1, Num 2]
   \<and> parseValue example_platform ''{"a":1}'' = Obj [(''a'', Num 1)]
   \<and> parseValue example_platform ''map(oops)'' = Str ''map(oops)''
   \<and> parseValue example_platform ''{oops'' = Str ''{oops''\<close>
proof -
  have j: \<open>json_parse example_platform ''[["k","v"]]'' = Some (Arr [Arr [Str ''k'', Str ''v'']])\<close>
    \<open>json_parse example_platform ''[1,2]'' = Some (Arr [Num 1, Num 2])\<close>
    \<open>json_parse example_platform ''{"a":1}'' = Some (Obj [(''a'', Num 1)])\<close>
    \<open>json_parse example_platform ''oops'' = None\<close>
    \<open>json_parse example_platform ''{oops'' = None\<close>
    by (simp_all add: example_platform_def example_json_def)
  show ?thesis
    using parseValue_classification [of \<open>''map([["k","v"]])''\<close> example_platform "[(Str ''k'', Str ''v'')]" "[]"]
      parseValue_classification [of "''set([1,2])''" example_platform "[]" "[Num 1, Num 2]"]
      parseValue_classification [of \<open>''{"a":1}''\<close> example_platform "[]" "[]"]
      parseValue_classification [of "''map(oops)''" example_platform "[]" "[]"]
      parseValue_classification [of "''{oops''" example_platform "[]" "[]"]
    by (simp add: startsWith_def endsWith_def slice_4_m1_def j new_Map_def new_Set_def
        map_entry_def elem_or_undefined_def set_add_def is_primitive_def)
qed

section \<open>Parse: a bracket group without a base\<close>

lemma index_group_digits:
  assumes "ds \<noteq> []" and "list_all is_digit ds"
  shows "index_group (ds @ CHR '']'' # s) = Some (ds, s)"
proof -
  have nd: "\<not> is_digit CHR '']''" by (simp add: is_digit_def)
  from assms(2) have "\<forall>c\<in>set ds. is_digit c" by (simp add: list_all_iff)
  then have "takeWhile is_digit (ds @ CHR '']'' # s) = ds"
    and "dropWhile is_digit (ds @ CHR '']'' # s) = CHR '']'' # s"
    using nd by (simp_all add: takeWhile_append2 dropWhile_append2)
  with assms(1) show ?thesis by (simp add: index_group_def)
qed

lemma has_index_group_digits:
  "list_all is_digit ds \<Longrightarrow> has_index_group (ds @ s) = has_index_group s"
  by (induction ds) (auto simp: is_digit_def)

lemma replace_index_groups_digits:
  "list_all is_digit ds \<Longrightarrow> replace_index_groups (ds @ s) = ds @ replace_index_groups s"
  by (induction ds) (auto simp: is_digit_def)

lemma replace_index_groups_none: "\<not> has_index_group s \<Longrightarrow> replace_index_groups s = s"
  by (induction s rule: replace_index_groups.induct) (auto split: option.splits)

lemma digits_no_dot:
  assumes "list_all is_digit ds"
  shows "CHR ''.'' \<notin> set ds"
proof
  assume "CHR ''.'' \<in> set ds"
  with assms have "is_digit CHR ''.''" by (simp add: list_all_iff)
  then show False by (simp add: is_digit_def)
qed

lemma hd_js_split_no_sep: "sep \<notin> set (hd (js_split sep s))"
proof -
  have "hd (js_split sep s) \<in> set (js_split sep s)"
    by (rule hd_in_set) (rule js_split_not_Nil)
  then show ?thesis by (rule js_split_no_sep)
qed

lemma segmentPath_digits:
  assumes "list_all is_digit ds" and "CHR ''.'' \<notin> set s"
  shows "segmentPath (ds @ s) = js_split CHR ''.'' (ds @ replace_index_groups s)"
proof (cases "has_index_group s")
  case True
  with assms show ?thesis
    by (simp add: segmentPath_def has_index_group_digits replace_index_groups_digits)
next
  case False
  moreover from assms have "CHR ''.'' \<notin> set (ds @ s)"
    by (simp add: digits_no_dot)
  ultimately show ?thesis
    using assms(1)
    by (simp add: segmentPath_def has_index_group_digits replace_index_groups_none
        js_split_single del: set_append)
qed

lemma segmentPath_empty_base:
  assumes "ds \<noteq> []" and "list_all is_digit ds"
  shows "segmentPath (CHR ''['' # ds @ CHR '']'' # s) = [] # js_split CHR ''.'' (ds @ replace_index_groups s)"
  using assms by (simp add: segmentPath_def index_group_digits)

lemma flatPath_empty_base:
  assumes "ds \<noteq> []" and "list_all is_digit ds"
  shows "flatPath (CHR ''['' # ds @ CHR '']'' # t) = [] # flatPath (ds @ t)"
proof -
  define s1 where "s1 = hd (js_split CHR ''.'' t)"
  define segs where "segs = tl (js_split CHR ''.'' t)"
  have nodot: "CHR ''.'' \<notin> set s1"
    unfolding s1_def by (rule hd_js_split_no_sep)
  have "CHR ''.'' \<notin> set (CHR ''['' # ds @ '']'')"
    using assms(2) by (simp add: digits_no_dot)
  from js_split_append_left [OF this, of t]
  have a: "js_split CHR ''.'' (CHR ''['' # ds @ CHR '']'' # t) = (CHR ''['' # ds @ CHR '']'' # s1) # segs"
    by (simp add: s1_def segs_def)
  have "CHR ''.'' \<notin> set ds"
    using assms(2) by (rule digits_no_dot)
  from js_split_append_left [OF this, of t]
  have b: "js_split CHR ''.'' (ds @ t) = (ds @ s1) # segs"
    by (simp add: s1_def segs_def)
  show ?thesis
    unfolding flatPath_def a b
    by (simp add: segmentPath_empty_base [OF assms] segmentPath_digits [OF assms(2) nodot])
qed

lemma flatPath_Nil: "flatPath [] = [[]]"
  by (simp add: flatPath_def segmentPath_def)

lemma flatPath_dot: "take (Suc 0) (flatPath (CHR ''.'' # s)) = [[]]"
  by (simp add: flatPath_def segmentPath_def)

lemma js_join_Nil_first: "js_join ''.'' ([] # xs) = [] \<or> (\<exists>r. js_join ''.'' ([] # xs) = CHR ''.'' # r)"
  by (cases xs) auto

lemma transform_empty_base_first:
  "take 1 (flatPath (js_join ''.'' (map (transformPart f) (js_split CHR ''.'' (CHR ''['' # s))))) = [[]]"
proof -
  have "CHR ''.'' \<notin> set ''[''" by simp
  from js_split_append_left [OF this, of s]
  obtain x xs where sp: "js_split CHR ''.'' (CHR ''['' # s) = (CHR ''['' # x) # xs"
    by auto
  from js_join_Nil_first [of "map (transformPart f) xs"]
  show ?thesis
    unfolding sp by (auto simp: transformPart_empty_base flatPath_Nil flatPath_dot)
qed

lemma js_split_append_sep: "js_split sep (a @ sep # b) = js_split sep a @ js_split sep b"
proof (induction a)
  case Nil
  then show ?case by simp
next
  case (Cons c a)
  then show ?case
    by (cases "js_split sep a") (simp_all add: js_split_not_Nil)
qed

lemma js_split_join:
  "xs \<noteq> [] \<Longrightarrow> js_split sep (js_join [sep] xs) = concat (map (js_split sep) xs)"
proof (induction "[sep]" xs rule: js_join.induct)
  case 1
  then show ?case by simp
next
  case (2 x)
  then show ?case by simp
next
  case (3 x y ys)
  then show ?case by (simp add: js_split_append_sep)
qed

lemma concat_map_concat:
  "concat (map f (concat xss)) = concat (map (\<lambda>xs. concat (map f xs)) xss)"
  by (induction xss) simp_all

lemma flatPath_reverse_join:
  assumes "xs \<noteq> []"
  shows "flatPath (reverseTransformKey P (js_join ''.'' xs) opts)
           = concat (map (\<lambda>x. flatPath (reverseTransformKey P x opts)) xs)"
proof (cases "restoreCaseOf opts")
  case RestoreOff
  with assms show ?thesis
    by (simp add: reverseTransformKey_def flatPath_def js_split_join concat_map_concat comp_def)
next
  case (RestoreTo c)
  have ne: "concat (map (js_split CHR ''.'') xs) \<noteq> []"
    using assms by (cases xs) (simp_all add: js_split_not_Nil)
  have one: "flatPath (js_join ''.'' (map f ys)) = concat (map (\<lambda>y. flatPath (f y)) ys)"
    if "ys \<noteq> []" for f :: "string \<Rightarrow> string" and ys
    using that by (simp add: flatPath_def js_split_join concat_map_concat comp_def)
  have "flatPath (reverseTransformKey P (js_join ''.'' xs) opts)
          = concat (map (\<lambda>y. flatPath (transformPart (caseFn P c) y))
              (concat (map (js_split CHR ''.'') xs)))"
    using assms ne by (simp add: reverseTransformKey_def RestoreTo js_split_join one)
  also have "\<dots> = concat (map (\<lambda>x. concat (map (\<lambda>y. flatPath (transformPart (caseFn P c) y))
              (js_split CHR ''.'' x))) xs)"
    by (simp add: concat_map_concat comp_def)
  also have "\<dots> = concat (map (\<lambda>x. flatPath (reverseTransformKey P x opts)) xs)"
    by (simp add: reverseTransformKey_def RestoreTo one js_split_not_Nil)
  finally show ?thesis .
qed

text \<open>
  Claim C8. A segment \<open>[digits]s\<close> of a key has an empty base before its bracket group,
  wherever it stands among the \<open>.\<close>-separated pieces of the key. The path \<open>parse\<close> decodes
  from the key is the concatenation of the paths of the pieces, and the path of such a
  segment starts with the empty string: the empty base is kept as a path element at its
  position, between the elements of the pieces before and after it. Without a case to
  restore, the elements that follow it are the path of \<open>digits\<close> followed by \<open>s\<close>, the
  index first. (With a case to restore the empty string is kept as well, and the index is
  lost in \<open>reverseTransformKey\<close>, as shown for claim C9.) The example at the end has
  \<open>parse\<close> return normally on such a key.
\<close>

theorem empty_base_kept_in_path:
  assumes "ds \<noteq> []" and "list_all is_digit ds"
  shows "flatPath (reverseTransformKey P (js_join ''.'' (before @ [''['' @ ds @ '']'' @ s] @ after)) opts)
           = concat (map (\<lambda>x. flatPath (reverseTransformKey P x opts)) before)
             @ [] # tl (flatPath (reverseTransformKey P (''['' @ ds @ '']'' @ s) opts))
             @ concat (map (\<lambda>x. flatPath (reverseTransformKey P x opts)) after)
         \<and> (restoreCaseOf opts = RestoreOff \<longrightarrow>
              tl (flatPath (reverseTransformKey P (''['' @ ds @ '']'' @ s) opts)) = flatPath (ds @ s))"
proof
  let ?seg = "''['' @ ds @ '']'' @ s"
  have first: "flatPath ?seg = [] # flatPath (ds @ s)"
    using flatPath_empty_base [OF assms] by simp
  have "take 1 (flatPath (reverseTransformKey P ?seg opts)) = [[]]"
  proof (cases "restoreCaseOf opts")
    case RestoreOff
    then show ?thesis using first by (simp add: reverseTransformKey_def)
  next
    case (RestoreTo c)
    then show ?thesis
      using transform_empty_base_first [of "caseFn P c" "ds @ '']'' @ s"]
      by (simp add: reverseTransformKey_def)
  qed
  then have seg: "flatPath (reverseTransformKey P ?seg opts)
      = [] # tl (flatPath (reverseTransformKey P ?seg opts))"
    by (cases "flatPath (reverseTransformKey P ?seg opts)") simp_all
  have "flatPath (reverseTransformKey P (js_join ''.'' (before @ [?seg] @ after)) opts)
      = concat (map (\<lambda>x. flatPath (reverseTransformKey P x opts)) (before @ [?seg] @ after))"
    by (rule flatPath_reverse_join) simp
  also have "\<dots> = concat (map (\<lambda>x. flatPath (reverseTransformKey P x opts)) before)
             @ flatPath (reverseTransformKey P ?seg opts)
             @ concat (map (\<lambda>x. flatPath (reverseTransformKey P x opts)) after)"
    by simp
  finally show "flatPath (reverseTransformKey P (js_join ''.'' (before @ [?seg] @ after)) opts)
           = concat (map (\<lambda>x. flatPath (reverseTransformKey P x opts)) before)
             @ [] # tl (flatPath (reverseTransformKey P ?seg opts))
             @ concat (map (\<lambda>x. flatPath (reverseTransformKey P x opts)) after)"
    using seg by simp
  show "restoreCaseOf opts = RestoreOff \<longrightarrow>
          tl (flatPath (reverseTransformKey P ?seg opts)) = flatPath (ds @ s)"
    using first by (simp add: reverseTransformKey_def)
qed

theorem empty_base_kept_in_path_witness:
  "flatPath ''a.[0].b'' = [''a'', '''', ''0'', ''b'']
   \<and> flatPath ''[12]x.c'' = ['''', ''12x'', ''c'']
   \<and> flatPath (reverseTransformKey example_platform ''a.[0].b'' (no_options\<lparr>qcase := Some KebabCase\<rparr>))
       = [''a'', '''', ''b'']
   \<and> parse example_platform ''a.[0]=x'' no_options
       = Returns (Obj [(''a'', Obj [([], Arr [Str ''x''])])])"
  using empty_base_kept_in_path [of "''0''" example_platform "[''a'']" "[]" "[''b'']" no_options]
    empty_base_kept_in_path [of "''12''" example_platform "[]" "''x''" "[''c'']" no_options]
    empty_base_kept_in_path [of "''0''" example_platform "[''a'']" "[]" "[''b'']"
      "no_options\<lparr>qcase := Some KebabCase\<rparr>"]
  by (simp add: parse_def parseParam_def parse_eval transformPart_def caseFn_def table_or_same_def)

section \<open>Stringify: the pairs and the result\<close>

text \<open>The equations of \<open>buildKeyValuePairs\<close> and \<open>pairCallback\<close>, which apply to every
  argument, are unfolded on request only.\<close>

declare buildKeyValuePairs.simps [simp del]

declare pairCallback.simps [simp del]

text \<open>Every pair of a returned list contains the separator \<open>=\<close>.\<close>

definition pairs_ok :: "string list outcome \<Rightarrow> bool" where
  "pairs_ok r = (case r of Returns ps \<Rightarrow> list_all (\<lambda>p. CHR ''='' \<in> set p) ps | _ \<Rightarrow> True)"

text \<open>The definitions unfolded to evaluate \<open>stringify\<close> on a concrete value.\<close>

lemmas stringify_eval = show_nat.simps collection_def keyPathOf_def key_truthy_def key_text_def shouldOmitValue_def
  buildKeyValuePairs.simps pairCallback.simps stringify_def isEmpty_def transformKeyPath_def
  transformKey_def transformPart_def caseFn_def first_def slice1_def leafPair_def processValue_def
  needsEncoding_def addPrefix_def prefix_truthy_def isObject_def is_primitive_def js_includes_def
  array_like_length_def indexed_values_def example_platform_def no_options_def table_or_same_def show_int_def percent_encode_def
  uri_unreserved_def hex_digit_def char_of_def bit_Suc_0_iff Let_def

lemma pairs_ok_Returns [simp]: "pairs_ok (Returns ps) = list_all (\<lambda>p. CHR ''='' \<in> set p) ps"
  by (simp add: pairs_ok_def)

lemma pairs_ok_append:
  "pairs_ok a \<Longrightarrow> pairs_ok b \<Longrightarrow> pairs_ok (bind a (\<lambda>ps. bind b (\<lambda>qs. Returns (ps @ qs))))"
  by (cases a; cases b) (simp_all add: pairs_ok_def)

lemma pairs_ok_leafPair: "pairs_ok (leafPair P opts key v)"
  by (cases "processValue P v") (simp_all add: leafPair_def pairs_ok_def)

lemma pairs_ok_leaf:
  "pairs_ok (bind (transformKeyPath P keyPath opts) (\<lambda>transformedKey. leafPair P opts transformedKey v))"
  by (cases "transformKeyPath P keyPath opts") (simp_all add: pairs_ok_leafPair, simp_all add: pairs_ok_def)

lemma pairs_ok_all:
  "pairs_ok (buildKeyValuePairs P opts input pfx)"
  "pairs_ok (reduceObject P opts pfx kvs)"
  "pairs_ok (reduceArray P opts pfx i xs)"
  "pairs_ok (pairCallback P opts keyPath v)"
  "pairs_ok (arrayPairs P opts kp i items)"
proof (induction P opts input pfx and P opts pfx kvs and P opts pfx i xs and P opts keyPath v
    and P opts kp i items
    rule: buildKeyValuePairs_reduceObject_reduceArray_pairCallback_arrayPairs.induct)
  case (1 P opts input pfx)
  then show ?case
    by (cases input) (simp_all add: buildKeyValuePairs.simps split: option.splits)
next
  case (2 P opts pfx)
  then show ?case by simp
next
  case (3 P opts pfx key v kvs)
  then show ?case by (simp add: pairs_ok_append)
next
  case (4 P opts pfx i)
  then show ?case by simp
next
  case (5 P opts pfx i v xs)
  then show ?case by (simp add: pairs_ok_append)
next
  case (6 P opts keyPath v)
  show ?case
  proof (cases "shouldOmitValue v keyPath opts")
    case None
    then show ?thesis by (simp add: pairCallback.simps pairs_ok_def)
  next
    case (Some omit)
    with 6 show ?thesis
      by (cases omit; cases v) (simp_all add: pairs_ok_leaf pairCallback.simps)
  qed
next
  case (7 P opts keyPath i)
  then show ?case by simp
next
  case (8 P opts keyPath i item items)
  then show ?case
    by (simp add: Let_def pairs_ok_append pairs_ok_leafPair)
qed


lemma buildKeyValuePairs_isEmpty:
  "isEmpty obj \<Longrightarrow> buildKeyValuePairs P opts (collection obj) (SKey []) = Returns []"
  by (cases obj)
    (simp_all add: isEmpty_def collection_def buildKeyValuePairs.simps array_like_length_def)

lemma js_join_contains: "ps \<noteq> [] \<Longrightarrow> set (hd ps) \<subseteq> set (js_join sep ps)"
  by (induction sep ps rule: js_join.induct) auto

lemma if_neq_swap: "(if x \<noteq> y then a else b) = (if x = y then b else a)"
  by simp

text \<open>
  Claim C6. When no pair remains after omission \<open>stringify\<close> returns the empty string,
  and otherwise the pairs joined by \<open>&\<close>, preceded by \<open>?\<close> exactly when \<open>addQueryPrefix\<close>
  is not explicitly \<open>false\<close>. The early return for an empty input agrees with this, and
  since every pair contains \<open>=\<close> the result is never the bare \<open>?\<close>. (When a leaf raises,
  an invalid date for instance, there are no pairs and the exception is the outcome.)
\<close>

theorem stringify_result:
  "stringify P obj opts =
     bind (buildKeyValuePairs P opts (collection obj) (SKey [])) (\<lambda>pairs.
       Returns (if pairs = [] then []
                else (if addQueryPrefix opts = Some False then [] else ''?'') @ js_join ''&'' pairs))
   \<and> stringify P obj opts \<noteq> Returns ''?''"
proof
  show eq: "stringify P obj opts =
     bind (buildKeyValuePairs P opts (collection obj) (SKey [])) (\<lambda>pairs.
       Returns (if pairs = [] then []
                else (if addQueryPrefix opts = Some False then [] else ''?'') @ js_join ''&'' pairs))"
    by (cases "isEmpty obj") (simp_all add: stringify_def buildKeyValuePairs_isEmpty if_neq_swap)
  show "stringify P obj opts \<noteq> Returns ''?''"
  proof
    assume a: "stringify P obj opts = Returns ''?''"
    then obtain pairs where p: "buildKeyValuePairs P opts (collection obj) (SKey []) = Returns pairs"
      unfolding eq by (cases "buildKeyValuePairs P opts (collection obj) (SKey [])") simp_all
    with a have ne: "pairs \<noteq> []"
      and r: "(if addQueryPrefix opts = Some False then [] else ''?'') @ js_join ''&'' pairs = ''?''"
      unfolding eq by (auto split: if_splits)
    from pairs_ok_all(1) [of P opts "collection obj" "SKey []"] p ne
    have "CHR ''='' \<in> set (hd pairs)"
      by (cases pairs) simp_all
    with js_join_contains [OF ne, of "''&''"] have "CHR ''='' \<in> set (js_join ''&'' pairs)"
      by auto
    then have "CHR ''='' \<in> set ((if addQueryPrefix opts = Some False then [] else ''?'') @ js_join ''&'' pairs)"
      by simp
    with r show False by simp
  qed
qed

theorem stringify_result_witness:
  "stringify example_platform (Obj [(''a'', Null), (''b'', Str [])]) no_options = Returns []
   \<and> stringify example_platform (Obj [(''a'', Str ''b''), (''c'', Str ''d'')]) no_options = Returns ''?a=b&c=d''
   \<and> stringify example_platform (Obj [(''a'', Str ''b'')]) (no_options\<lparr>addQueryPrefix := Some False\<rparr>) = Returns ''a=b''
   \<and> stringify example_platform (Obj [(''a'', Str ''b'')]) (no_options\<lparr>addQueryPrefix := Some True\<rparr>) = Returns ''?a=b''"
  using stringify_result [of example_platform "Obj [(''a'', Null), (''b'', Str [])]" no_options]
    stringify_result [of example_platform "Obj [(''a'', Str ''b''), (''c'', Str ''d'')]" no_options]
    stringify_result [of example_platform "Obj [(''a'', Str ''b'')]" "no_options\<lparr>addQueryPrefix := Some False\<rparr>"]
    stringify_result [of example_platform "Obj [(''a'', Str ''b'')]" "no_options\<lparr>addQueryPrefix := Some True\<rparr>"]
  by (simp add: stringify_eval)

section \<open>Stringify: where the omission policy is consulted\<close>

text \<open>The pairs of a list of items, each contributing the pairs of \<open>f\<close>, in order; the
  first exception ends the collection.\<close>

fun collect :: "('a \<Rightarrow> string list outcome) \<Rightarrow> 'a list \<Rightarrow> string list outcome" where
  "collect f [] = Returns []"
| "collect f (x # xs) = bind (f x) (\<lambda>ps. bind (collect f xs) (\<lambda>qs. Returns (ps @ qs)))"










lemma bind_Returns_Nil_left: "bind (Returns []) (\<lambda>ps. bind b (\<lambda>qs. Returns (ps @ qs))) = b"
  by (cases b) simp_all




lemma collect_single: "collect f [x] = f x"
  by (cases "f x") simp_all






end
